theory Spec2Isabelle
  imports Main "HOL-Library.Word" "HOL-Library.AList"
begin

section \<open>Errors, Numba types and run-time values\<close>

text \<open>
  Every \<^verbatim>\<open>raise\<close> of \<^verbatim>\<open>numba/np/ufunc/dufunc.py\<close> is a value of \<open>error\<close>; a function that
  can raise returns \<open>error + 'a\<close> with \<open>Inl\<close> for the exception.  The implementations
  of \<^verbatim>\<open>reduce\<close> run compiled: a read of a tuple past its end (\<^verbatim>\<open>strides[j]\<close>, \<^verbatim>\<open>tup[i]\<close>)
  raises \<open>IndexError\<close>, an access to an array is not bounds checked, and the integers of
  the flat index are 64-bit and wrap.
\<close>

datatype error =
    NumbaTypeError string
  | ValueError string
  | TypeError string
  | RuntimeError string
  | IndexError
  | NotImplementedError string
  | ZeroDivisionError
  | AssertionError

text \<open>
  The Numba types that \<^verbatim>\<open>ol_reduce\<close> inspects.  \<open>Integer w\<close> and \<open>Float w\<close> carry the
  bit width; \<^verbatim>\<open>types.IntegerLiteral\<close> is a subclass of \<^verbatim>\<open>types.Integer\<close> and is not
  distinguished.  \<open>Number\<close> is a scalar whose precise numeric type is not tracked.
\<close>

datatype nb_type =
    Number
  | Integer nat
  | Float nat
  | NoneType
  | Omitted
  | UniTuple nb_type nat
  | Tuple "nb_type list"
  | Array nb_type nat

text \<open>
  An argument of the overload: the type of the value passed at the call site, or
  \<open>Default\<close> when the argument is left out and the Python default of the parameter
  (\<^verbatim>\<open>axis=0\<close>) is what \<^verbatim>\<open>ol_reduce\<close> sees.
\<close>

datatype ol_arg = Passed nb_type | Default

text \<open>
  An N-dimensional array: element type, element size in bytes, shape, and the elements
  in index order (last axis fastest), which is the order of \<^verbatim>\<open>np.ndenumerate\<close>.
\<close>

record 'a ndarray =
  dtype :: nb_type
  itemsize :: int
  shape :: "nat list"
  data :: "'a list"

datatype 'a pyval = Scalar 'a | NDArray "'a ndarray"

datatype axis_val = AxisInt int | AxisTuple "int list" | AxisNone | AxisDefault

definition wf_array :: "'a ndarray \<Rightarrow> bool" where
  "wf_array a \<longleftrightarrow>
     length (data a) = prod_list (shape a) \<and> 0 < itemsize a \<and> itemsize a < 2 ^ 63"

fun typeof :: "'a pyval \<Rightarrow> nb_type" where
  "typeof (Scalar v) = Number"
| "typeof (NDArray a) = Array (dtype a) (length (shape a))"

text \<open>The shape of a result; a scalar has the empty shape.\<close>

fun shape_of :: "'a pyval \<Rightarrow> nat list" where
  "shape_of (Scalar v) = []"
| "shape_of (NDArray a) = shape a"

fun typeof_axis :: "axis_val \<Rightarrow> ol_arg" where
  "typeof_axis (AxisInt i) = Passed (Integer 64)"
| "typeof_axis (AxisTuple []) = Passed (Tuple [])"
| "typeof_axis (AxisTuple (x # xs)) = Passed (UniTuple (Integer 64) (Suc (length xs)))"
| "typeof_axis AxisNone = Passed NoneType"
| "typeof_axis AxisDefault = Default"

definition bind_err :: "error + 'a \<Rightarrow> ('a \<Rightarrow> error + 'b) \<Rightarrow> error + 'b" where
  "bind_err m k = (case m of Inl e \<Rightarrow> Inl e | Inr x \<Rightarrow> k x)"

text \<open>A \<^verbatim>\<open>for\<close> loop whose body may raise: the first exception ends the loop.\<close>

fun for_loop :: "('s \<Rightarrow> 'x \<Rightarrow> error + 's) \<Rightarrow> 'x list \<Rightarrow> 's \<Rightarrow> error + 's" where
  "for_loop body [] s = Inr s"
| "for_loop body (x # xs) s =
     (case body s x of Inl e \<Rightarrow> Inl e | Inr s' \<Rightarrow> for_loop body xs s')"

section \<open>Typing-time dispatch: \<^verbatim>\<open>ol_reduce\<close>\<close>

definition msg_array_like :: string where
  \<open>msg_array_like = ''The first argument "array" must be array-like''\<close>

definition msg_not_reorderable :: "string \<Rightarrow> string" where
  "msg_not_reorderable name =
     ''reduction operation '' @ [CHR 0x27] @ name @ [CHR 0x27] @
     '' is not reorderable, so at most one axis may be specified''"

datatype impl = Impl_1d | Impl_nd_axis_int | Impl_nd_axis_tuple

fun is_Array :: "nb_type \<Rightarrow> bool" where
  "is_Array (Array dt nd) = True"
| "is_Array t = False"

fun ndim_of :: "nb_type \<Rightarrow> nat" where
  "ndim_of (Array dt nd) = nd"
| "ndim_of t = 0"

fun is_Integer :: "nb_type \<Rightarrow> bool" where
  "is_Integer (Integer w) = True"
| "is_Integer t = False"

fun axis_int :: "ol_arg \<Rightarrow> bool" where
  "axis_int (Passed t) = is_Integer t"
| "axis_int Default = False"

fun axis_int_tuple :: "ol_arg \<Rightarrow> bool" where
  "axis_int_tuple (Passed (UniTuple t n)) = is_Integer t"
| "axis_int_tuple a = False"

fun axis_tuple_size :: "ol_arg \<Rightarrow> nat" where
  "axis_tuple_size (Passed (UniTuple t n)) = (if is_Integer t then n else 0)"
| "axis_tuple_size a = 0"

text \<open>
  Line 495: \<^verbatim>\<open>axis == 0 or isinstance(axis, (types.Integer, types.Omitted,
  types.IntegerLiteral))\<close>.  A Numba type never equals \<^verbatim>\<open>0\<close>; the omitted argument does.
\<close>

fun axis_default_or_int :: "ol_arg \<Rightarrow> bool" where
  "axis_default_or_int Default = True"
| "axis_default_or_int (Passed t) = (is_Integer t \<or> t = Omitted)"

text \<open>
  \<^verbatim>\<open>ol_reduce(ufunc, array, axis=0, dtype=None, initial=None)\<close>, lines 273--499.  The
  result is the implementation the overload returns; \<open>None\<close> is the overload falling off
  its end without returning one.  \<open>name\<close> is \<^verbatim>\<open>self.ufunc.__name__\<close> and \<open>id_none\<close> is
  \<^verbatim>\<open>self.ufunc.identity is None\<close>.
\<close>

definition ol_reduce :: "string \<Rightarrow> bool \<Rightarrow> nb_type \<Rightarrow> ol_arg \<Rightarrow> error + impl option" where
  "ol_reduce name id_none array axis =
     (if \<not> is_Array array then Inl (NumbaTypeError msg_array_like)
      else if id_none \<and>
              \<not> (axis_int axis \<or> (axis_int_tuple axis \<and> axis_tuple_size axis = 1))
        then Inl (NumbaTypeError (msg_not_reorderable name))
      else if ndim_of array = 1 then Inr (Some Impl_1d)
      else if axis_int_tuple axis then Inr (Some Impl_nd_axis_tuple)
      else if axis_default_or_int axis then Inr (Some Impl_nd_axis_int)
      else Inr None)"

section \<open>Tuple helpers and the flat index\<close>

text \<open>
  \<^verbatim>\<open>tuple_slice(tup, pos)\<close>, lines 298--308.  \<open>s\<close> starts as \<^verbatim>\<open>tup_init_m1\<close>, a tuple of
  \<^verbatim>\<open>array.ndim - 1\<close> zeros; \<^verbatim>\<open>tuple_setitem\<close> is the unchecked store, modelled by list
  update.
\<close>

fun tuple_slice_loop :: "nat \<Rightarrow> 'a list \<Rightarrow> nat \<Rightarrow> 'a list \<Rightarrow> nat \<Rightarrow> 'a list" where
  "tuple_slice_loop pos [] j s i = s"
| "tuple_slice_loop pos (e # es) j s i =
     (if j = pos then tuple_slice_loop pos es (Suc j) s i
      else tuple_slice_loop pos es (Suc j) (s[i := e]) (Suc i))"

definition tuple_slice :: "nat \<Rightarrow> ('a::zero) list \<Rightarrow> nat \<Rightarrow> 'a list" where
  "tuple_slice ndim tup pos = tuple_slice_loop pos tup 0 (replicate (ndim - 1) 0) 0"

text \<open>
  \<^verbatim>\<open>tuple_slice_append(tup, pos, val)\<close>, lines 311--324.  \<open>s\<close> starts as \<^verbatim>\<open>tup_init\<close>, a
  tuple of \<^verbatim>\<open>array.ndim\<close> zeros; \<^verbatim>\<open>tup[i]\<close> is a checked read.
\<close>

function tuple_slice_append_loop ::
  "'a list \<Rightarrow> nat \<Rightarrow> 'a \<Rightarrow> 'a list \<Rightarrow> nat \<Rightarrow> nat \<Rightarrow> error + 'a list" where
  "tuple_slice_append_loop tup pos val s i j =
     (if j < length s then
        (if j = pos then tuple_slice_append_loop tup pos val (s[j := val]) i (Suc j)
         else if i < length tup
           then tuple_slice_append_loop tup pos val (s[j := tup ! i]) (Suc i) (Suc j)
         else Inl IndexError)
      else Inr s)"
  by pat_completeness auto
termination
  by (relation "measure (\<lambda>(tup, pos, val, s, i, j). length s - j)") auto

definition tuple_slice_append :: "nat \<Rightarrow> ('a::zero) list \<Rightarrow> nat \<Rightarrow> 'a \<Rightarrow> error + 'a list" where
  "tuple_slice_append ndim tup pos val =
     tuple_slice_append_loop tup pos val (replicate ndim 0) 0 0"

text \<open>
  \<^verbatim>\<open>compute_flat_idx(strides, itemsize, idx, axis)\<close>, lines 393--401, as it runs compiled:
  strides, coordinates, element size and \<^verbatim>\<open>flat_idx\<close> are 64-bit integers, so the products
  and the sum wrap modulo \<open>2 ^ 64\<close>, and \<^verbatim>\<open>//\<close> is floor division on the signed values.  The
  counters \<open>i\<close> and \<open>j\<close> stay below the length of the tuples, and \<open>axis\<close> is only compared
  with \<open>i\<close>.
\<close>

function compute_flat_idx_loop ::
  "64 word list \<Rightarrow> 64 word list \<Rightarrow> int \<Rightarrow> 64 word \<Rightarrow> nat \<Rightarrow> nat \<Rightarrow> error + 64 word" where
  "compute_flat_idx_loop strides idx axis flat_idx i j =
     (if i < length idx then
        (if int i \<noteq> axis then
           (if j < length strides
            then compute_flat_idx_loop strides idx axis
                   (flat_idx + strides ! j * idx ! i) (Suc i) (Suc j)
            else Inl IndexError)
         else compute_flat_idx_loop strides idx axis flat_idx (Suc i) j)
      else Inr flat_idx)"
  by pat_completeness auto
termination
  by (relation "measure (\<lambda>(strides, idx, axis, flat_idx, i, j). length idx - i)") auto

definition floordiv64 :: "64 word \<Rightarrow> 64 word \<Rightarrow> 64 word" where
  "floordiv64 x y = word_of_int (sint x div sint y)"

definition compute_flat_idx ::
  "64 word list \<Rightarrow> 64 word \<Rightarrow> 64 word list \<Rightarrow> int \<Rightarrow> error + 64 word" where
  "compute_flat_idx strides isz idx axis =
     (case compute_flat_idx_loop strides idx axis 0 0 0 of
        Inl e \<Rightarrow> Inl e
      | Inr flat_idx \<Rightarrow>
          if isz = 0 then Inl ZeroDivisionError else Inr (floordiv64 flat_idx isz))"

text \<open>\<^verbatim>\<open>find_min(tup)\<close>, lines 404--409.\<close>

definition find_min :: "int list \<Rightarrow> error + nat \<times> int" where
  "find_min tup =
     (case tup of
        [] \<Rightarrow> Inl IndexError
      | t0 # ts \<Rightarrow>
          Inr (foldl (\<lambda>(idx, e) i. if tup ! i < e then (i, tup ! i) else (idx, e))
                 (0, t0) [0..<length tup]))"

section \<open>Arrays\<close>

text \<open>
  Strides, in elements, of a C-contiguous buffer of the given shape; \<^verbatim>\<open>np.empty\<close> and
  \<^verbatim>\<open>np.full\<close> return such buffers, whose \<^verbatim>\<open>strides\<close> attribute is these times the element
  size, as 64-bit integers.
\<close>

fun c_strides :: "nat list \<Rightarrow> nat list" where
  "c_strides [] = []"
| "c_strides (n # ns) = prod_list ns # c_strides ns"

definition strides :: "'a ndarray \<Rightarrow> 64 word list" where
  "strides a = map (\<lambda>s. word_of_int (int s * itemsize a)) (c_strides (shape a))"

definition ravel_index :: "nat list \<Rightarrow> nat list \<Rightarrow> nat" where
  "ravel_index shp idx = sum_list (map2 (*) idx (c_strides shp))"

text \<open>
  \<^verbatim>\<open>array[idx]\<close> for a full index tuple of non-negative integers.  The read is not bounds
  checked: inside the shape it returns the element, outside it returns whatever the
  memory it hits holds, which is the parameter \<open>oob\<close>.
\<close>

definition getitem :: "(nat list \<Rightarrow> 'a) \<Rightarrow> 'a ndarray \<Rightarrow> nat list \<Rightarrow> 'a" where
  "getitem oob a idx =
     (if list_all2 (<) idx (shape a) \<and> ravel_index (shape a) idx < length (data a)
      then data a ! ravel_index (shape a) idx
      else oob idx)"

text \<open>The index tuples of \<^verbatim>\<open>np.ndenumerate\<close>, last axis fastest.\<close>

fun ndindex :: "nat list \<Rightarrow> nat list list" where
  "ndindex [] = [[]]"
| "ndindex (n # ns) = concat (map (\<lambda>i. map ((#) i) (ndindex ns)) [0..<n])"

definition ndenumerate :: "'a ndarray \<Rightarrow> (nat list \<times> 'a) list" where
  "ndenumerate a = zip (ndindex (shape a)) (data a)"

text \<open>
  \<^verbatim>\<open>view[flat_pos] = f(view[flat_pos])\<close> on a flat buffer: a negative index counts from
  the end, and an access that still falls outside the buffer, being unchecked, leaves the
  buffer as it is.
\<close>

definition update_flat :: "'a list \<Rightarrow> int \<Rightarrow> ('a \<Rightarrow> 'a) \<Rightarrow> 'a list" where
  "update_flat view p f =
     (let n = int (length view); q = (if p < 0 then p + n else p)
      in if 0 \<le> q \<and> q < n then view[nat q := f (view ! nat q)] else view)"

fun map_err :: "('x \<Rightarrow> error + 'y) \<Rightarrow> 'x list \<Rightarrow> error + 'y list" where
  "map_err f [] = Inr []"
| "map_err f (x # xs) =
     (case f x of
        Inl e \<Rightarrow> Inl e
      | Inr y \<Rightarrow> (case map_err f xs of Inl e \<Rightarrow> Inl e | Inr ys \<Rightarrow> Inr (y # ys)))"

section \<open>Rank-1 reduction: \<^verbatim>\<open>impl_1d\<close>\<close>

text \<open>
  \<^verbatim>\<open>impl_1d\<close>, lines 411--424.  \<open>ident\<close> is \<^verbatim>\<open>self.identity\<close> and \<open>initial\<close> the keyword
  argument; \<open>None\<close> is Python's \<^verbatim>\<open>None\<close>.  The loop runs over \<^verbatim>\<open>range(sz)\<close>, from index 0,
  whatever the seed.
\<close>

definition impl_1d ::
  "('a \<Rightarrow> 'a \<Rightarrow> 'a) \<Rightarrow> 'a option \<Rightarrow> (nat list \<Rightarrow> 'a) \<Rightarrow> 'a ndarray \<Rightarrow> 'a option
     \<Rightarrow> error + 'a" where
  "impl_1d ufunc ident oob array initial =
     (let r = (case (initial, ident) of
                 (None, None) \<Rightarrow> getitem oob array [0]
               | (None, Some e) \<Rightarrow> e
               | (Some v, _) \<Rightarrow> v)
      in case shape array of
           [] \<Rightarrow> Inl IndexError
         | sz # _ \<Rightarrow> Inr (foldl (\<lambda>r i. ufunc r (getitem oob array [i])) r [0..<sz]))"

section \<open>Rank-N reduction along one axis: \<^verbatim>\<open>impl_nd_axis_int\<close>\<close>

definition msg_axis_unspecified :: string where
  "msg_axis_unspecified = [CHR 0x27] @ ''axis'' @ [CHR 0x27] @ '' must be specified''"

definition np_full :: "'a ndarray \<Rightarrow> nat list \<Rightarrow> 'a \<Rightarrow> 'a ndarray" where
  "np_full array shp v = array\<lparr>shape := shp, data := replicate (prod_list shp) v\<rparr>"

text \<open>
  Lines 441--445: \<^verbatim>\<open>r = np.empty(shape)\<close> followed by \<^verbatim>\<open>r[idx] = array[result_idx]\<close> for every
  index of \<open>r\<close> in order; every cell of \<open>r\<close> is written once, so \<open>r\<close> is the list of the
  values read.
\<close>

definition seed_first_slice ::
  "(nat list \<Rightarrow> 'a) \<Rightarrow> 'a ndarray \<Rightarrow> nat list \<Rightarrow> nat \<Rightarrow> error + 'a ndarray" where
  "seed_first_slice oob array shp axis =
     bind_err
       (map_err (\<lambda>idx. bind_err (tuple_slice_append (length (shape array)) idx axis 0)
                         (\<lambda>result_idx. Inr (getitem oob array result_idx)))
          (ndindex shp))
       (\<lambda>cells. Inr (array\<lparr>shape := shp, data := cells\<rparr>))"

text \<open>
  Lines 459--464: one step of the loop over \<^verbatim>\<open>np.ndenumerate(array)\<close>, on the flat view
  \<^verbatim>\<open>r.ravel()\<close> of the result buffer.
\<close>

definition fold_step ::
  "('a \<Rightarrow> 'a \<Rightarrow> 'a) \<Rightarrow> 64 word list \<Rightarrow> 64 word \<Rightarrow> int \<Rightarrow> 'a list \<Rightarrow> nat list \<times> 'a
     \<Rightarrow> error + 'a list" where
  "fold_step ufunc r_strides r_itemsize axis view iv =
     bind_err (compute_flat_idx r_strides r_itemsize (map word_of_nat (fst iv)) axis)
       (\<lambda>flat_pos. Inr (update_flat view (sint flat_pos) (\<lambda>lhs. ufunc lhs (snd iv))))"

text \<open>
  \<^verbatim>\<open>impl_nd_axis_int\<close>, lines 426--465.  The \<^verbatim>\<open>dtype\<close> argument only selects the element
  type of the result buffer; elements are kept at one type and the result has the
  element type of the input.
\<close>

definition impl_nd_axis_int ::
  "('a \<Rightarrow> 'a \<Rightarrow> 'a) \<Rightarrow> 'a option \<Rightarrow> (nat list \<Rightarrow> 'a) \<Rightarrow> 'a ndarray \<Rightarrow> int option
     \<Rightarrow> 'a option \<Rightarrow> error + 'a ndarray" where
  "impl_nd_axis_int ufunc ident oob array axis initial =
     (case axis of
        None \<Rightarrow> Inl (ValueError msg_axis_unspecified)
      | Some ax \<Rightarrow>
          if ax < 0 \<or> ax \<ge> int (length (shape array)) then Inl (ValueError ''Invalid axis'')
          else
            let shp = tuple_slice (length (shape array)) (shape array) (nat ax) in
            bind_err
              (case (initial, ident) of
                 (None, None) \<Rightarrow> seed_first_slice oob array shp (nat ax)
               | (None, Some e) \<Rightarrow> Inr (np_full array shp e)
               | (Some v, _) \<Rightarrow> Inr (np_full array shp v))
              (\<lambda>r. bind_err
                      (for_loop (fold_step ufunc (strides r) (word_of_int (itemsize r)) ax)
                         (ndenumerate array) (data r))
                      (\<lambda>view. Inr (r\<lparr>data := view\<rparr>))))"

section \<open>Reduction over a tuple of axes and the dispatch of \<^verbatim>\<open>reduce\<close>\<close>

text \<open>
  Lines 482--485: \<^verbatim>\<open>ax\<close> starts as \<^verbatim>\<open>axis_tup\<close>, a tuple of \<^verbatim>\<open>len(axis) - 1\<close> zeros, and
  position \<open>i\<close> of it receives \<^verbatim>\<open>axis[i]\<close> unless \<open>i\<close> is \<^verbatim>\<open>min_idx\<close>.
\<close>

definition remaining_axes :: "int list \<Rightarrow> nat \<Rightarrow> int list" where
  "remaining_axes axis min_idx =
     foldl (\<lambda>ax i. if i \<noteq> min_idx then ax[i := axis ! i] else ax)
       (replicate (length axis - 1) 0) [0..<length axis - 1]"

fun axis_as_int :: "axis_val \<Rightarrow> int option" where
  "axis_as_int (AxisInt k) = Some k"
| "axis_as_int AxisDefault = Some 0"
| "axis_as_int a = None"

definition msg_no_impl :: string where
  "msg_no_impl = ''No implementation of function reduce for the given argument types''"

text \<open>
  \<^verbatim>\<open>ufunc.reduce(array, axis, dtype, initial)\<close> as a call site runs it: \<^verbatim>\<open>ol_reduce\<close> picks
  the implementation from the argument types, then the implementation runs on the
  values.  \<^verbatim>\<open>impl_nd_axis_tuple\<close> (lines 467--486) is the branch that calls
  \<^verbatim>\<open>ufunc.reduce\<close> again; its second call passes neither \<^verbatim>\<open>dtype\<close> nor \<^verbatim>\<open>initial\<close>.
\<close>

function reduce ::
  "string \<Rightarrow> ('a \<Rightarrow> 'a \<Rightarrow> 'a) \<Rightarrow> 'a option \<Rightarrow> (nat list \<Rightarrow> 'a) \<Rightarrow> 'a pyval \<Rightarrow> axis_val
     \<Rightarrow> 'a option \<Rightarrow> error + 'a pyval" where
  "reduce name ufunc ident oob x axis initial =
     (case ol_reduce name (Option.is_none ident) (typeof x) (typeof_axis axis) of
        Inl e \<Rightarrow> Inl e
      | Inr None \<Rightarrow> Inl (NumbaTypeError msg_no_impl)
      | Inr (Some Impl_1d) \<Rightarrow>
          (case x of
             Scalar v \<Rightarrow> Inl (NumbaTypeError msg_array_like)
           | NDArray a \<Rightarrow> bind_err (impl_1d ufunc ident oob a initial) (\<lambda>r. Inr (Scalar r)))
      | Inr (Some Impl_nd_axis_int) \<Rightarrow>
          (case x of
             Scalar v \<Rightarrow> Inl (NumbaTypeError msg_array_like)
           | NDArray a \<Rightarrow>
               bind_err (impl_nd_axis_int ufunc ident oob a (axis_as_int axis) initial)
                 (\<lambda>r. Inr (NDArray r)))
      | Inr (Some Impl_nd_axis_tuple) \<Rightarrow>
          (case axis of
             AxisTuple ax \<Rightarrow>
               (case find_min ax of
                  Inl e \<Rightarrow> Inl e
                | Inr (min_idx, min_elem) \<Rightarrow>
                    (case reduce name ufunc ident oob x (AxisInt min_elem) initial of
                       Inl e \<Rightarrow> Inl e
                     | Inr r \<Rightarrow>
                         if length ax = 1 then Inr r
                         else if length ax = 2
                           then reduce name ufunc ident oob r
                                  (AxisInt (ax ! ((min_idx + 1) mod 2) - 1)) None
                         else reduce name ufunc ident oob r
                                (AxisTuple (remaining_axes ax min_idx)) None))
           | _ \<Rightarrow> Inl (NumbaTypeError msg_no_impl)))"
  by pat_completeness auto
termination
proof (relation "measure (\<lambda>(name, ufunc, ident, oob, x, axis, initial).
                   case axis of AxisTuple ax \<Rightarrow> Suc (length ax) | _ \<Rightarrow> 0)", goal_cases)
  case 1
  then show ?case by simp
next
  case 2
  then show ?case by simp
next
  case 3
  then show ?case by simp
next
  case (4 name ufunc ident oob x axis initial a b ax p min_idx min_elem r)
  have len: "length (foldl (\<lambda>ax i. if i \<noteq> min_idx then ax[i := axis ! i] else ax) s js) = length s"
    for s :: "int list" and js axis
    by (induction js arbitrary: s) auto
  from 4 show ?case
    by (cases ax) (auto simp: find_min_def remaining_axes_def len)
qed

declare reduce.simps [simp del]
declare compute_flat_idx_loop.simps [simp del]
declare tuple_slice_append_loop.simps [simp del]

section \<open>The specialisation table and the compile controller\<close>

text \<open>
  A signature as the dispatcher stores it, a loop as \<^verbatim>\<open>numpy_support\<close> reports it
  (\<^verbatim>\<open>UFuncLoopSpec\<close>), and the mutable state of a \<^verbatim>\<open>DUFunc\<close>: \<open>overloads\<close> is the ordered
  dictionary \<^verbatim>\<open>self._dispatcher.overloads\<close>, \<open>loops\<close> what \<^verbatim>\<open>_add_loop\<close> has registered
  with the ufunc object, \<open>keepalive\<close> and \<open>libs\<close> the two lists that \<^verbatim>\<open>_compile_for_argtys\<close>
  appends to.  \<open>'c\<close> is the compile result.
\<close>

record signature =
  args :: "nb_type list"
  return_type :: nb_type

record loop_spec =
  inputs :: "nb_type list"
  outputs :: "nb_type list"

record 'c dufunc =
  repr_self :: string
  nout :: nat
  frozen :: bool
  overloads :: "(signature \<times> 'c) list"
  loops :: "(int \<times> int list) list"
  keepalive :: "(int \<times> 'c) list"
  libs :: "'c list"

text \<open>
  The collaborators outside this file are parameters.  \<open>normalize_signature\<close> is
  \<^verbatim>\<open>sigutils.normalize_signature\<close>.  \<open>backend\<close> stands for the three \<^verbatim>\<open>ufuncbuilder\<close> calls of
  \<^verbatim>\<open>_compile_for_argtys\<close>: from the argument types and the optional return type it gives
  the compile result, the signature under which the dispatcher stores it, the dtype
  numbers and the pointer of the loop wrapper, or raises.  \<open>find_loop\<close> is
  \<^verbatim>\<open>numpy_support.ufunc_find_matching_loop\<close>, the safe-casting search over the registered
  loops.
\<close>

type_synonym 'c backend =
  "nb_type list \<Rightarrow> nb_type option \<Rightarrow> error + 'c \<times> signature \<times> int list \<times> int"

type_synonym 'c find_loop = "'c dufunc \<Rightarrow> nb_type list \<Rightarrow> loop_spec option"

definition msg_compilation_disabled :: "'c dufunc \<Rightarrow> string" where
  "msg_compilation_disabled self = ''compilation disabled for '' @ repr_self self"

definition msg_cannot_call :: "'c dufunc \<Rightarrow> string" where
  "msg_cannot_call self = ''cannot call '' @ repr_self self"

text \<open>\<^verbatim>\<open>disable_compile\<close>, lines 173--179.\<close>

definition disable_compile :: "'c dufunc \<Rightarrow> error + 'c dufunc" where
  "disable_compile self =
     (if length (overloads self) > 0 then Inr (self\<lparr>frozen := True\<rparr>) else Inl AssertionError)"

text \<open>
  \<^verbatim>\<open>_compile_for_argtys\<close>, lines 219--243.  The result is what the call returns or raises,
  with the state it leaves.
\<close>

definition compile_for_argtys ::
  "'c backend \<Rightarrow> 'c dufunc \<Rightarrow> nb_type list \<Rightarrow> nb_type option \<Rightarrow> (error + 'c) \<times> 'c dufunc" where
  "compile_for_argtys backend self argtys rty =
     (if frozen self then (Inl (RuntimeError (msg_compilation_disabled self)), self)
      else case backend argtys rty of
             Inl e \<Rightarrow> (Inl e, self)
           | Inr (cres, sig, dtypenums, ptr) \<Rightarrow>
               (Inr cres,
                self\<lparr>overloads := AList.update sig cres (overloads self),
                     loops := loops self @ [(ptr, dtypenums)],
                     keepalive := keepalive self @ [(ptr, cres)],
                     libs := libs self @ [cres]\<rparr>))"

text \<open>\<^verbatim>\<open>add\<close>, lines 181--186.\<close>

definition add ::
  "('s \<Rightarrow> error + nb_type list \<times> nb_type option) \<Rightarrow> 'c backend \<Rightarrow> 'c dufunc \<Rightarrow> 's
     \<Rightarrow> (error + 'c) \<times> 'c dufunc" where
  "add normalize_signature backend self sig =
     (case normalize_signature sig of
        Inl e \<Rightarrow> (Inl e, self)
      | Inr (argtys, rty) \<Rightarrow> compile_for_argtys backend self argtys rty)"

text \<open>
  \<^verbatim>\<open>find_ewise_function\<close>, lines 517--535.  \<open>None\<close> is the pair \<^verbatim>\<open>(None, None)\<close>.
\<close>

definition find_ewise_function ::
  "'c find_loop \<Rightarrow> 'c dufunc \<Rightarrow> nb_type list \<Rightarrow> (signature \<times> 'c) option" where
  "find_ewise_function find_loop self ewise_types =
     (if frozen self then
        (case find_loop self ewise_types of
           None \<Rightarrow> None
         | Some loop \<Rightarrow>
             find (\<lambda>(sig, cres).
                     args sig = take (length ewise_types) (inputs loop @ outputs loop))
               (overloads self))
      else find (\<lambda>(sig, cres). args sig = ewise_types) (overloads self))"

text \<open>
  \<^verbatim>\<open>_type_me\<close>, lines 537--575.  \<open>base_types\<close>, \<open>explicit_outputs\<close> and \<open>ndims\<close> are what
  \<^verbatim>\<open>Numpy_rules_ufunc._handle_inputs\<close> returned for \<open>argtys\<close>; the layout is not part of
  \<open>nb_type\<close>.  The returned list is \<^verbatim>\<open>outtys\<close> extended by \<open>argtys\<close>, the arguments of
  \<^verbatim>\<open>signature\<close>.
\<close>

definition resolve_or_compile ::
  "'c find_loop \<Rightarrow> 'c backend \<Rightarrow> 'c dufunc \<Rightarrow> nb_type list \<Rightarrow> (error + signature) \<times> 'c dufunc" where
  "resolve_or_compile find_loop backend self ewise_types =
     (case find_ewise_function find_loop self ewise_types of
        Some (sig, cres) \<Rightarrow> (Inr sig, self)
      | None \<Rightarrow>
          if frozen self then (Inl (TypeError (msg_cannot_call self)), self)
          else
            (case compile_for_argtys backend self ewise_types None of
               (Inl e, self') \<Rightarrow> (Inl e, self')
             | (Inr cres, self') \<Rightarrow>
                 (case find_ewise_function find_loop self' ewise_types of
                    None \<Rightarrow> (Inl AssertionError, self')
                  | Some (sig, cres') \<Rightarrow> (Inr sig, self'))))"

definition type_me ::
  "'c find_loop \<Rightarrow> 'c backend \<Rightarrow> 'c dufunc \<Rightarrow> nb_type list \<Rightarrow> nb_type list \<Rightarrow> nb_type list
     \<Rightarrow> nat \<Rightarrow> (error + nb_type list) \<times> 'c dufunc" where
  "type_me find_loop backend self argtys base_types explicit_outputs ndims =
     (let explicit_output_count = length explicit_outputs;
          ewise_types =
            (if explicit_output_count > 0
             then take (length base_types - explicit_output_count) base_types
             else base_types)
      in case resolve_or_compile find_loop backend self ewise_types of
           (Inl e, self') \<Rightarrow> (Inl e, self')
         | (Inr sig, self') \<Rightarrow>
             if explicit_output_count > 0 then (Inr (explicit_outputs @ argtys), self')
             else if nout self' = 1 then
               (Inr ((if ndims > 0 then [Array (return_type sig) ndims]
                      else [return_type sig]) @ argtys), self')
             else (Inl (NotImplementedError ''typing gufuncs (nout > 1)''), self'))"

text \<open>
  Modelled from the spec: the safe-casting promotion search of the Type Resolver, whose
  source (\<^verbatim>\<open>numpy_support.ufunc_find_matching_loop\<close>) is outside this file.  A stored
  signature qualifies when every call-site input type casts to the stored input type
  without loss; the first qualifying signature in table order is taken.  It serves as an
  instance of the \<open>find_loop\<close> parameter.
\<close>

fun can_cast_safe :: "nb_type \<Rightarrow> nb_type \<Rightarrow> bool" where
  "can_cast_safe (Integer w) (Integer w') = (w \<le> w')"
| "can_cast_safe (Integer w) (Float w') = (w < w')"
| "can_cast_safe (Float w) (Float w') = (w \<le> w')"
| "can_cast_safe t t' = (t = t')"

definition safe_cast_search :: "'c find_loop" where
  "safe_cast_search self tys =
     (case find (\<lambda>(sig, cres). list_all2 can_cast_safe tys (args sig)) (overloads self) of
        None \<Rightarrow> None
      | Some (sig, cres) \<Rightarrow> Some \<lparr>inputs = args sig, outputs = [return_type sig]\<rparr>)"

text \<open>A function with the single specialisation \<open>float64(float64)\<close>, frozen or not.\<close>

definition float64_only :: "bool \<Rightarrow> unit dufunc" where
  "float64_only fr =
     \<lparr>repr_self = ''f'', nout = 1, frozen = fr,
      overloads = [(\<lparr>args = [Float 64], return_type = Float 64\<rparr>, ())],
      loops = [(1, [12, 12])], keepalive = [(1, ())], libs = [()]\<rparr>"

section \<open>Basic facts\<close>

lemma find_Some_mem: "find P xs = Some x \<Longrightarrow> x \<in> set xs \<and> P x"
  by (induction xs) (auto split: if_splits)

lemma find_not_None: "x \<in> set xs \<Longrightarrow> P x \<Longrightarrow> find P xs \<noteq> None"
  by (induction xs) auto

lemma resolve_or_compile_frozen:
  "frozen self \<Longrightarrow> snd (resolve_or_compile find_loop backend self tys) = self"
  by (simp add: resolve_or_compile_def split: option.splits prod.splits)

lemma bind_err_simps [simp]:
  "bind_err (Inl e) k = Inl e"
  "bind_err (Inr x) k = k x"
  by (simp_all add: bind_err_def)

lemma getitem_rank1:
  assumes "shape a = [n]" and "length (data a) = n" and "i < n"
  shows "getitem oob a [i] = data a ! i"
  using assms by (simp add: getitem_def ravel_index_def)

lemma foldl_getitem_rank1:
  assumes "shape a = [n]" and "length (data a) = n" and "\<forall>i\<in>set js. i < n"
  shows "foldl (\<lambda>r i. ufunc r (getitem oob a [i])) r js = foldl ufunc r (map ((!) (data a)) js)"
  using assms(3)
proof (induction js arbitrary: r)
  case Nil
  then show ?case by simp
next
  case (Cons j js)
  then have "getitem oob a [j] = data a ! j"
    using getitem_rank1[OF assms(1,2)] by simp
  with Cons show ?case by simp
qed

text \<open>
  \<^verbatim>\<open>impl_1d\<close> on a well-formed rank-1 array: a left fold over all the elements, seeded by
  \<open>initial\<close>, else the identity, else the first element (for an empty array, whatever the
  unchecked read of \<^verbatim>\<open>array[0]\<close> returns).
\<close>

lemma impl_1d_foldl:
  assumes "shape a = [n]" and "length (data a) = n"
  shows "impl_1d ufunc ident oob a initial =
           Inr (foldl ufunc
                  (case (initial, ident) of
                     (None, None) \<Rightarrow> if n = 0 then oob [0] else data a ! 0
                   | (None, Some e) \<Rightarrow> e
                   | (Some v, _) \<Rightarrow> v)
                  (data a))"
proof -
  have "map ((!) (data a)) [0..<n] = data a"
    using assms(2) map_nth[of "data a"] by simp
  then have loop: "foldl (\<lambda>r i. ufunc r (getitem oob a [i])) r [0..<n] = foldl ufunc r (data a)"
    for r
    using foldl_getitem_rank1[OF assms, of "[0..<n]" ufunc oob r] by simp
  have g0: "getitem oob a [0] = (if n = 0 then oob [0] else data a ! 0)"
    using getitem_rank1[OF assms, of 0 oob] assms by (simp add: getitem_def)
  show ?thesis
    by (simp add: impl_1d_def assms(1) loop g0 split: option.splits)
qed

text \<open>The two tuple helpers do what their comments say.\<close>

lemma tuple_slice_loop_after:
  "pos < j \<Longrightarrow> i + length es \<le> length s \<Longrightarrow>
   tuple_slice_loop pos es j s i = take i s @ es @ drop (i + length es) s"
proof (induction es arbitrary: j s i)
  case Nil
  then show ?case by simp
next
  case (Cons e es)
  then have i: "i < length s" by simp
  have "tuple_slice_loop pos (e # es) j s i = tuple_slice_loop pos es (Suc j) (s[i := e]) (Suc i)"
    using Cons.prems by simp
  also have "\<dots> = take (Suc i) (s[i := e]) @ es @ drop (Suc i + length es) (s[i := e])"
    using Cons.prems by (intro Cons.IH) simp_all
  also have "take (Suc i) (s[i := e]) = take i s @ [e]"
    using i by (simp add: take_Suc_conv_app_nth)
  finally show ?case by simp
qed

lemma tuple_slice_loop_before:
  "j \<le> pos \<Longrightarrow> pos < j + length es \<Longrightarrow> i + length es \<le> Suc (length s) \<Longrightarrow>
   tuple_slice_loop pos es j s i =
     take i s @ take (pos - j) es @ drop (Suc (pos - j)) es @ drop (i + length es - 1) s"
proof (induction es arbitrary: j s i)
  case Nil
  then show ?case by simp
next
  case (Cons e es)
  show ?case
  proof (cases "j = pos")
    case True
    then have "tuple_slice_loop pos (e # es) j s i = tuple_slice_loop pos es (Suc j) s i"
      by simp
    also have "\<dots> = take i s @ es @ drop (i + length es) s"
      using True Cons.prems by (intro tuple_slice_loop_after) simp_all
    finally show ?thesis using True by simp
  next
    case False
    then have lt: "j < pos" using Cons.prems by simp
    then have es: "es \<noteq> []" and i: "i < length s" using Cons.prems by auto
    obtain d where d: "pos - j = Suc d" and d': "pos - Suc j = d"
      using lt by (metis Suc_diff_Suc)
    have "tuple_slice_loop pos (e # es) j s i =
            tuple_slice_loop pos es (Suc j) (s[i := e]) (Suc i)"
      using False by simp
    also have "\<dots> = take (Suc i) (s[i := e]) @ take (pos - Suc j) es @
                     drop (Suc (pos - Suc j)) es @ drop (Suc i + length es - 1) (s[i := e])"
      using lt Cons.prems by (intro Cons.IH) simp_all
    also have "take (Suc i) (s[i := e]) = take i s @ [e]"
      using i by (simp add: take_Suc_conv_app_nth)
    also have "drop (Suc i + length es - 1) (s[i := e]) = drop (i + length es) s"
      using es by (simp add: drop_update_cancel)
    finally show ?thesis using d d' by simp
  qed
qed

lemma tuple_slice_eq:
  assumes "pos < length tup"
  shows "tuple_slice (length tup) tup pos = take pos tup @ drop (Suc pos) tup"
  using tuple_slice_loop_before[of 0 pos tup 0 "replicate (length tup - 1) 0"] assms
  by (simp add: tuple_slice_def)

lemma tuple_slice_append_loop_eq:
  assumes "length s = Suc (length tup)" and "pos \<le> length tup"
    and "j \<le> length s" and "i = (if j \<le> pos then j else j - 1)"
  shows "tuple_slice_append_loop tup pos val s i j =
           Inr (take j s @
                map (\<lambda>p. if p = pos then val else tup ! (if p < pos then p else p - 1))
                  [j..<length s])"
  using assms
proof (induction tup pos val s i j rule: tuple_slice_append_loop.induct)
  case (1 tup pos val s i j)
  show ?case
  proof (cases "j < length s")
    case False
    with "1.prems" have "j = length s" by simp
    then show ?thesis by (subst tuple_slice_append_loop.simps) simp
  next
    case jlt: True
    have upt: "[j..<length s] = j # [Suc j..<length s]"
      using jlt by (simp add: upt_conv_Cons)
    show ?thesis
    proof (cases "j = pos")
      case True
      have "tuple_slice_append_loop tup pos val s i j =
              tuple_slice_append_loop tup pos val (s[j := val]) i (Suc j)"
        using jlt True by (subst tuple_slice_append_loop.simps) simp
      also have "\<dots> = Inr (take (Suc j) (s[j := val]) @
                map (\<lambda>p. if p = pos then val else tup ! (if p < pos then p else p - 1))
                  [Suc j..<length (s[j := val])])"
      proof (rule "1.IH"(1)[OF jlt True])
        show "length (s[j := val]) = Suc (length tup)" using "1.prems" by simp
        show "pos \<le> length tup" by fact
        show "Suc j \<le> length (s[j := val])" using jlt by simp
        show "i = (if Suc j \<le> pos then Suc j else Suc j - 1)" using "1.prems"(4) True by simp
      qed
      also have "take (Suc j) (s[j := val]) = take j s @ [val]"
        using jlt by (simp add: take_Suc_conv_app_nth)
      finally show ?thesis unfolding upt using True by simp
    next
      case False
      have ilt: "i < length tup" using "1.prems" jlt False by (auto split: if_splits)
      have ieq: "i = (if j < pos then j else j - 1)" using "1.prems"(4) False by auto
      have "tuple_slice_append_loop tup pos val s i j =
              tuple_slice_append_loop tup pos val (s[j := tup ! i]) (Suc i) (Suc j)"
        using jlt False ilt by (subst tuple_slice_append_loop.simps) simp
      also have "\<dots> = Inr (take (Suc j) (s[j := tup ! i]) @
                map (\<lambda>p. if p = pos then val else tup ! (if p < pos then p else p - 1))
                  [Suc j..<length (s[j := tup ! i])])"
      proof (rule "1.IH"(2)[OF jlt False ilt])
        show "length (s[j := tup ! i]) = Suc (length tup)" using "1.prems" by simp
        show "pos \<le> length tup" by fact
        show "Suc j \<le> length (s[j := tup ! i])" using jlt by simp
        show "Suc i = (if Suc j \<le> pos then Suc j else Suc j - 1)"
          using ieq False by (cases "j < pos") simp_all
      qed
      also have "take (Suc j) (s[j := tup ! i]) = take j s @ [tup ! i]"
        using jlt by (simp add: take_Suc_conv_app_nth)
      finally show ?thesis unfolding upt using False ieq by simp
    qed
  qed
qed

lemma tuple_slice_append_eq:
  assumes "pos \<le> length tup"
  shows "tuple_slice_append (Suc (length tup)) tup pos val = Inr (take pos tup @ val # drop pos tup)"
proof -
  have "map (\<lambda>p. if p = pos then val else tup ! (if p < pos then p else p - 1))
          [0..<Suc (length tup)] = take pos tup @ val # drop pos tup"
    using assms
    by (intro nth_equalityI) (auto simp: nth_append nth_Cons' min_def simp del: upt_Suc)
  then show ?thesis
    using tuple_slice_append_loop_eq[of "replicate (Suc (length tup)) 0" tup pos 0 0 val] assms
    by (simp add: tuple_slice_append_def del: upt_Suc replicate_Suc)
qed

text \<open>Index tuples stay inside the shape.\<close>

lemma ndindex_bounds: "idx \<in> set (ndindex shp) \<Longrightarrow> list_all2 (<) idx shp"
  by (induction shp arbitrary: idx) auto

lemma length_ndindex: "length (ndindex shp) = prod_list shp"
  by (induction shp) (simp_all add: length_concat comp_def sum_list_triv)

lemma map_err_total:
  assumes "\<forall>x\<in>set xs. \<exists>y. f x = Inr y"
  shows "\<exists>ys. map_err f xs = Inr ys \<and> length ys = length xs"
  using assms
proof (induction xs)
  case Nil
  then show ?case by simp
next
  case (Cons x xs)
  then obtain y ys where "f x = Inr y" and "map_err f xs = Inr ys" and "length ys = length xs"
    by auto
  then show ?case by simp
qed

lemma seed_first_slice_total:
  assumes "k < length (shape a)"
  shows "\<exists>r. seed_first_slice oob a (take k (shape a) @ drop (Suc k) (shape a)) k = Inr r \<and>
             shape r = take k (shape a) @ drop (Suc k) (shape a) \<and>
             length (data r) = prod_list (shape r) \<and> itemsize r = itemsize a"
proof -
  let ?shp = "take k (shape a) @ drop (Suc k) (shape a)"
  let ?f = "\<lambda>idx. bind_err (tuple_slice_append (length (shape a)) idx k 0)
                   (\<lambda>result_idx. Inr (getitem oob a result_idx))"
  have "\<exists>y. ?f idx = Inr y" if "idx \<in> set (ndindex ?shp)" for idx
  proof -
    have "list_all2 (<) idx ?shp" using that by (rule ndindex_bounds)
    then have "length idx = length ?shp" by (rule list_all2_lengthD)
    then have len: "length (shape a) = Suc (length idx)" and k: "k \<le> length idx"
      using assms by auto
    have "tuple_slice_append (length (shape a)) idx k 0 = Inr (take k idx @ 0 # drop k idx)"
      unfolding len using k by (rule tuple_slice_append_eq)
    then show ?thesis by simp
  qed
  then have "\<exists>ys. map_err ?f (ndindex ?shp) = Inr ys \<and> length ys = length (ndindex ?shp)"
    by (intro map_err_total) blast
  then obtain ys where "map_err ?f (ndindex ?shp) = Inr ys" and "length ys = prod_list ?shp"
    by (auto simp: length_ndindex)
  then show ?thesis
    by (simp add: seed_first_slice_def)
qed

text \<open>The loop of \<^verbatim>\<open>compute_flat_idx\<close> and the fold over the input.\<close>

lemma compute_flat_idx_loop_sum:
  assumes "length strds + 1 = length idx" and "0 \<le> axis" and "nat axis < length idx"
    and "i \<le> length idx" and "j = (if i \<le> nat axis then i else i - 1)"
  shows "compute_flat_idx_loop strds idx axis acc i j =
           Inr (acc + (\<Sum>a\<in>{i..<length idx} - {nat axis}.
                         idx ! a * strds ! (if a < nat axis then a else a - 1)))"
  using assms
proof (induction strds idx axis acc i j rule: compute_flat_idx_loop.induct)
  case (1 strds idx axis acc i j)
  show ?case
  proof (cases "i < length idx")
    case False
    with "1.prems" have "i = length idx" by simp
    then show ?thesis
      by (subst compute_flat_idx_loop.simps) simp
  next
    case in_range: True
    show ?thesis
    proof (cases "int i = axis")
      case True
      then have ik: "i = nat axis" by auto
      have set_eq: "{i..<length idx} - {nat axis} = {Suc i..<length idx} - {nat axis}"
        using ik by auto
      have "compute_flat_idx_loop strds idx axis acc i j =
              compute_flat_idx_loop strds idx axis acc (Suc i) j"
        using in_range True by (subst compute_flat_idx_loop.simps) simp
      also have "\<dots> = Inr (acc + (\<Sum>a\<in>{Suc i..<length idx} - {nat axis}.
                         idx ! a * strds ! (if a < nat axis then a else a - 1)))"
      proof (rule "1.IH"(2)[OF in_range _ "1.prems"(1,2,3)])
        show "\<not> int i \<noteq> axis" using True by simp
        show "Suc i \<le> length idx" using in_range by simp
        show "j = (if Suc i \<le> nat axis then Suc i else Suc i - 1)"
          using "1.prems"(5) ik by simp
      qed
      finally show ?thesis by (simp only: set_eq)
    next
      case False
      then have ik: "i \<noteq> nat axis" using "1.prems"(2) by auto
      have jlt: "j < length strds" using "1.prems" in_range ik by (auto split: if_splits)
      have set_eq: "{i..<length idx} - {nat axis} = insert i ({Suc i..<length idx} - {nat axis})"
        using ik in_range by auto
      have jeq: "j = (if i < nat axis then i else i - 1)"
        using "1.prems"(5) ik by auto
      have "compute_flat_idx_loop strds idx axis acc i j =
              compute_flat_idx_loop strds idx axis (acc + strds ! j * idx ! i) (Suc i) (Suc j)"
        using in_range False jlt by (subst compute_flat_idx_loop.simps) simp
      also have "\<dots> = Inr ((acc + strds ! j * idx ! i) + (\<Sum>a\<in>{Suc i..<length idx} - {nat axis}.
                         idx ! a * strds ! (if a < nat axis then a else a - 1)))"
      proof (rule "1.IH"(1)[OF in_range False jlt "1.prems"(1,2,3)])
        show "Suc i \<le> length idx" using in_range by simp
        show "Suc j = (if Suc i \<le> nat axis then Suc i else Suc i - 1)"
          using jeq ik by (cases "i < nat axis") simp_all
      qed
      finally show ?thesis
        unfolding set_eq using jeq by (simp add: mult.commute)
    qed
  qed
qed

lemma length_c_strides: "length (c_strides shp) = length shp"
  by (induction shp) simp_all

lemma length_update_flat: "length (update_flat view p f) = length view"
  by (simp add: update_flat_def Let_def)

lemma fold_step_total:
  assumes "length idx = length shp0" and "k < length shp0" and "isz \<noteq> 0"
  shows "\<exists>view'. fold_step ufunc
                    (map g (c_strides (take k shp0 @ drop (Suc k) shp0)))
                    isz (int k) view (idx, val) = Inr view' \<and>
                  length view' = length view"
proof -
  have "\<exists>flat. compute_flat_idx_loop (map g (c_strides (take k shp0 @ drop (Suc k) shp0)))
                  (map word_of_nat idx) (int k) 0 0 0 = Inr flat"
    using assms(1,2)
    by (subst compute_flat_idx_loop_sum) (simp_all add: length_c_strides)
  then show ?thesis
    using assms(3) by (auto simp: fold_step_def compute_flat_idx_def length_update_flat)
qed

lemma fold_loop_total:
  assumes "\<forall>iv\<in>set ivs. length (fst iv) = length shp0" and "k < length shp0" and "isz \<noteq> 0"
  shows "\<exists>view'. for_loop (fold_step ufunc
                    (map g (c_strides (take k shp0 @ drop (Suc k) shp0)))
                    isz (int k)) ivs view = Inr view' \<and>
                  length view' = length view"
  using assms(1)
proof (induction ivs arbitrary: view)
  case Nil
  then show ?case by simp
next
  case (Cons iv ivs)
  obtain idx val where iv: "iv = (idx, val)" by (cases iv)
  with Cons.prems have "length idx = length shp0" by simp
  from fold_step_total[OF this assms(2,3), of ufunc g view val]
  obtain view1 where
    step: "fold_step ufunc (map g (c_strides (take k shp0 @ drop (Suc k) shp0)))
             isz (int k) view (idx, val) = Inr view1"
    and len1: "length view1 = length view" by blast
  have "\<exists>view'. for_loop (fold_step ufunc
                    (map g (c_strides (take k shp0 @ drop (Suc k) shp0)))
                    isz (int k)) ivs view1 = Inr view' \<and>
                  length view' = length view1"
    using Cons.prems by (intro Cons.IH) simp_all
  with step len1 iv show ?case by auto
qed

lemma itemsize_word_nonzero:
  assumes "wf_array a"
  shows "(word_of_int (itemsize a) :: 64 word) \<noteq> 0"
proof -
  have "0 < itemsize a" and "itemsize a < 2 ^ 64"
    using assms by (simp_all add: wf_array_def)
  then have "uint (word_of_int (itemsize a) :: 64 word) = itemsize a"
    by (simp add: uint_word_of_int)
  with \<open>0 < itemsize a\<close> show ?thesis by auto
qed

text \<open>Reduction along one axis returns, and a one-element tuple is that axis.\<close>

lemma impl_nd_axis_int_total:
  assumes "wf_array a" and "0 \<le> k" and "k < int (length (shape a))"
  shows "\<exists>r. impl_nd_axis_int ufunc ident oob a (Some k) initial = Inr r \<and>
             shape r = take (nat k) (shape a) @ drop (Suc (nat k)) (shape a) \<and> wf_array r"
proof -
  let ?k = "nat k"
  let ?shp = "take ?k (shape a) @ drop (Suc ?k) (shape a)"
  let ?seed = "case (initial, ident) of
                 (None, None) \<Rightarrow> seed_first_slice oob a ?shp ?k
               | (None, Some e) \<Rightarrow> Inr (np_full a ?shp e)
               | (Some v, _) \<Rightarrow> Inr (np_full a ?shp v)"
  let ?g = "\<lambda>s. word_of_int (int s * itemsize a) :: 64 word"
  have k: "?k < length (shape a)" and kk: "int ?k = k" using assms(2,3) by simp_all
  have isz: "(word_of_int (itemsize a) :: 64 word) \<noteq> 0"
    using assms(1) by (rule itemsize_word_nonzero)
  have slice: "tuple_slice (length (shape a)) (shape a) ?k = ?shp"
    using k by (rule tuple_slice_eq)
  have "\<exists>r0. ?seed = Inr r0 \<and> shape r0 = ?shp \<and> length (data r0) = prod_list (shape r0) \<and>
              itemsize r0 = itemsize a"
  proof (cases "initial = None \<and> ident = None")
    case True
    from seed_first_slice_total[OF k, of oob] True show ?thesis by simp
  next
    case False
    then show ?thesis by (auto simp: np_full_def split: option.splits)
  qed
  then obtain r0 where seed: "?seed = Inr r0" and shp0: "shape r0 = ?shp"
    and len0: "length (data r0) = prod_list ?shp" and isz0: "itemsize r0 = itemsize a"
    by auto
  have "\<forall>iv\<in>set (ndenumerate a). length (fst iv) = length (shape a)"
    by (auto simp: ndenumerate_def dest!: set_zip_leftD ndindex_bounds list_all2_lengthD)
  from fold_loop_total[OF this k isz, of ufunc ?g "data r0"]
  obtain view where
    loop: "for_loop (fold_step ufunc (map ?g (c_strides ?shp))
                       (word_of_int (itemsize a)) (int ?k)) (ndenumerate a) (data r0) = Inr view"
    and lenv: "length view = length (data r0)" by blast
  have str: "strides r0 = map ?g (c_strides ?shp)"
    by (simp add: strides_def shp0 isz0)
  have "impl_nd_axis_int ufunc ident oob a (Some k) initial = Inr (r0\<lparr>data := view\<rparr>)"
    using assms(2,3) seed loop
    by (simp add: impl_nd_axis_int_def slice str isz0 kk)
  moreover have "wf_array (r0\<lparr>data := view\<rparr>)"
    using lenv len0 shp0 isz0 assms(1) by (simp add: wf_array_def)
  ultimately show ?thesis using shp0 by simp
qed

lemma reduce_one_element_tuple:
  "reduce name ufunc ident oob x (AxisTuple [k]) initial =
   reduce name ufunc ident oob x (AxisInt k) initial"
proof (cases x)
  case (Scalar v)
  have "reduce name ufunc ident oob (Scalar v) ax initial = Inl (NumbaTypeError msg_array_like)"
    for ax
    by (subst reduce.simps) (simp add: ol_reduce_def)
  then show ?thesis using Scalar by simp
next
  case (NDArray a)
  show ?thesis
  proof (cases "length (shape a) = 1")
    case True
    have "reduce name ufunc ident oob (NDArray a) (AxisTuple [k]) initial =
            bind_err (impl_1d ufunc ident oob a initial) (\<lambda>r. Inr (Scalar r))"
      using True by (subst reduce.simps) (simp add: ol_reduce_def)
    moreover have "reduce name ufunc ident oob (NDArray a) (AxisInt k) initial =
            bind_err (impl_1d ufunc ident oob a initial) (\<lambda>r. Inr (Scalar r))"
      using True by (subst reduce.simps) (simp add: ol_reduce_def)
    ultimately show ?thesis using NDArray by simp
  next
    case False
    have "reduce name ufunc ident oob (NDArray a) (AxisTuple [k]) initial =
            (case reduce name ufunc ident oob (NDArray a) (AxisInt k) initial of
               Inl e \<Rightarrow> Inl e | Inr r \<Rightarrow> Inr r)"
      using False
      by (subst reduce.simps) (simp add: ol_reduce_def find_min_def split: sum.splits)
    then show ?thesis using NDArray by (simp split: sum.splits)
  qed
qed

lemma reduce_axis_int_total:
  assumes "wf_array a" and "0 \<le> k" and "k < int (length (shape a))"
  shows "\<exists>r. reduce name ufunc ident oob (NDArray a) (AxisInt k) initial = Inr r \<and>
             shape_of r = take (nat k) (shape a) @ drop (Suc (nat k)) (shape a)"
proof (cases "length (shape a) = 1")
  case True
  then obtain n where shp: "shape a = [n]" by (cases "shape a") simp_all
  then have k0: "k = 0" using assms(2,3) by simp
  have len: "length (data a) = n" using assms(1) shp by (simp add: wf_array_def)
  have red: "reduce name ufunc ident oob (NDArray a) (AxisInt k) initial =
          bind_err (impl_1d ufunc ident oob a initial) (\<lambda>r. Inr (Scalar r))"
    using True by (subst reduce.simps) (simp add: ol_reduce_def)
  show ?thesis unfolding red impl_1d_foldl[OF shp len] using shp k0 by simp
next
  case False
  have red: "reduce name ufunc ident oob (NDArray a) (AxisInt k) initial =
          bind_err (impl_nd_axis_int ufunc ident oob a (Some k) initial) (\<lambda>r. Inr (NDArray r))"
    using False by (subst reduce.simps) (simp add: ol_reduce_def)
  from impl_nd_axis_int_total[OF assms, of ufunc ident oob initial]
  show ?thesis using red by auto
qed

lemma find_min_pair: "find_min [i, j] = Inr (if j < i then (1, j) else (0, i))"
  by (simp add: find_min_def)

text \<open>
  The two-axis branch of \<^verbatim>\<open>impl_nd_axis_tuple\<close>: the smaller axis is reduced first, with
  \<^verbatim>\<open>initial\<close>, and the larger one, less one, second, without.
\<close>

lemma reduce_axis_pair:
  assumes "ident \<noteq> None" and "length (shape a) \<noteq> 1"
  shows "reduce name ufunc ident oob (NDArray a) (AxisTuple [i, j]) initial =
           bind_err (reduce name ufunc ident oob (NDArray a) (AxisInt (min i j)) initial)
             (\<lambda>r. reduce name ufunc ident oob r (AxisInt (max i j - 1)) None)"
proof -
  have ol: "ol_reduce name (Option.is_none ident) (typeof (NDArray a)) (typeof_axis (AxisTuple [i, j]))
              = Inr (Some Impl_nd_axis_tuple)"
    using assms by (simp add: ol_reduce_def Option.is_none_def)
  show ?thesis
    by (subst reduce.simps, subst ol)
       (auto simp: find_min_pair bind_err_def min_def max_def split: sum.splits)
qed

section \<open>The typing-time guards\<close>

text \<open>
  C10.  A call of \<^verbatim>\<open>reduce\<close> whose first argument is not of an array type is rejected
  while typing, with the type error that the first argument must be array-like, whatever
  the axis argument and whether or not the function has an identity; \<^verbatim>\<open>dtype\<close> and
  \<^verbatim>\<open>initial\<close> are not looked at before.  At a call site this is what \<open>reduce\<close> returns
  for a scalar.
\<close>

theorem ol_reduce_first_argument_array_like:
  "(\<not> is_Array array \<longrightarrow>
      ol_reduce name id_none array axis = Inl (NumbaTypeError msg_array_like)) \<and>
   reduce name ufunc ident oob (Scalar v) axis_v initial = Inl (NumbaTypeError msg_array_like)"
  by (subst reduce.simps) (simp add: ol_reduce_def)

theorem ol_reduce_first_argument_array_like_witness:
  "ol_reduce ''add'' False (Integer 64) (Passed (UniTuple (Integer 64) 2)) =
     Inl (NumbaTypeError msg_array_like) \<and>
   reduce ''add'' (+) (Some 0) (\<lambda>idx. 0) (Scalar (5::int)) (AxisInt 0) (Some 1) =
     Inl (NumbaTypeError msg_array_like)"
  using ol_reduce_first_argument_array_like
          [of "Integer 64" "''add''" False "Passed (UniTuple (Integer 64) 2)"
              "(+)" "Some 0" "\<lambda>idx. 0" "5::int" "AxisInt 0" "Some 1"]
  by simp

text \<open>
  The guard of lines 283--287, on the type of the axis argument.  A function without
  identity is served when \<open>axis\<close> is passed as an integer or as a one-element tuple of
  integers; for every other axis argument, the omitted one included, the type error is
  raised.
\<close>

lemma ol_reduce_no_identity_guard:
  "is_Array array \<longrightarrow>
     ((\<forall>w. axis \<noteq> Passed (Integer w)) \<and> (\<forall>w. axis \<noteq> Passed (UniTuple (Integer w) 1)) \<longrightarrow>
        ol_reduce name True array axis = Inl (NumbaTypeError (msg_not_reorderable name))) \<and>
     (axis = Passed (Integer w) \<or> axis = Passed (UniTuple (Integer w) 1) \<longrightarrow>
        (\<exists>impl. ol_reduce name True array axis = Inr (Some impl)))"
proof (intro impI conjI)
  assume arr: "is_Array array"
    and ax: "(\<forall>w. axis \<noteq> Passed (Integer w)) \<and> (\<forall>w. axis \<noteq> Passed (UniTuple (Integer w) 1))"
  have "\<not> axis_int axis"
  proof (cases axis)
    case (Passed t)
    with ax show ?thesis by (cases t) auto
  qed simp
  moreover have "\<not> (axis_int_tuple axis \<and> axis_tuple_size axis = 1)"
  proof (cases axis)
    case (Passed t)
    show ?thesis
    proof (cases t)
      case (UniTuple u n)
      with Passed ax show ?thesis by (cases u) auto
    qed (simp_all add: Passed)
  qed simp
  ultimately show "ol_reduce name True array axis = Inl (NumbaTypeError (msg_not_reorderable name))"
    using arr by (simp add: ol_reduce_def)
next
  assume arr: "is_Array array"
    and ax: "axis = Passed (Integer w) \<or> axis = Passed (UniTuple (Integer w) 1)"
  then show "\<exists>impl. ol_reduce name True array axis = Inr (Some impl)"
    by (auto simp: ol_reduce_def)
qed

lemma reduce_max_two_axes_rejected:
  "reduce ''max'' max None oob
     (NDArray \<lparr>dtype = Integer 64, itemsize = 8, shape = [2, 3],
               data = [1, 5, 2, 4, 0, 6 :: int]\<rparr>)
     (AxisTuple [0, 1]) None
   = Inl (NumbaTypeError (msg_not_reorderable ''max''))"
  by code_simp

text \<open>
  C3.  A tuple of two or more axes is rejected for a function without identity, as
  claimed (\<open>reduce_max_two_axes_rejected\<close>).  But a reduction over one axis is not always
  accepted: when \<open>axis\<close> is left out, the guard sees the default \<open>0\<close>, which is not an
  integer type, and raises ``at most one axis may be specified'' for a call that
  specifies none.  Line 495 does count the default as an integer axis, and the same call
  with an identity, or with \<open>axis=0\<close> written out, is served.
\<close>

theorem ol_reduce_default_axis_rejected:
  "ol_reduce ''max'' True (Array (Integer 64) 2) Default =
     Inl (NumbaTypeError (msg_not_reorderable ''max'')) \<and>
   reduce ''max'' max None oob
     (NDArray \<lparr>dtype = Integer 64, itemsize = 8, shape = [2, 3],
               data = [1, 5, 2, 4, 0, 6 :: int]\<rparr>)
     AxisDefault None
   = Inl (NumbaTypeError (msg_not_reorderable ''max'')) \<and>
   ol_reduce ''max'' False (Array (Integer 64) 2) Default = Inr (Some Impl_nd_axis_int) \<and>
   ol_reduce ''max'' True (Array (Integer 64) 2) (Passed (Integer 64)) =
     Inr (Some Impl_nd_axis_int)"
  by code_simp

section \<open>The flat index\<close>






section \<open>Concrete reductions\<close>

text \<open>
  C6.  With the function \<open>add\<close> and identity 0, \<^verbatim>\<open>reduce\<close> of the 1-dimensional array
  \<open>[1, 2, 3, 4]\<close> of 32-bit integers returns 10.
\<close>

theorem reduce_add_1d_scenario:
  "reduce ''add'' (+) (Some 0) oob
     (NDArray \<lparr>dtype = Integer 32, itemsize = 4, shape = [4], data = [1, 2, 3, 4 :: 32 word]\<rparr>)
     AxisDefault None
   = Inr (Scalar 10)"
  by code_simp

text \<open>
  C8.  With the function \<open>max\<close> and no identity, \<^verbatim>\<open>reduce\<close> of the array
  \<open>[[1, 5, 2], [4, 0, 6]]\<close> of shape \<open>(2, 3)\<close> along axis 0 returns the array \<open>[4, 5, 6]\<close>
  of shape \<open>(3,)\<close>.
\<close>

theorem reduce_max_axis0_scenario:
  "reduce ''max'' max None oob
     (NDArray \<lparr>dtype = Integer 64, itemsize = 8, shape = [2, 3],
               data = [1, 5, 2, 4, 0, 6 :: int]\<rparr>)
     (AxisInt 0) None
   = Inr (NDArray \<lparr>dtype = Integer 64, itemsize = 8, shape = [3], data = [4, 5, 6]\<rparr>)"
  by code_simp

section \<open>The rank-1 fold\<close>

text \<open>
  C1.  The seed of \<^verbatim>\<open>impl_1d\<close> follows the priority \<open>initial\<close>, identity, first element,
  and the fold runs left to right (\<open>impl_1d_foldl\<close>); but the loop starts at index 0 in
  every case, so when the seed is the first element that element is folded in a second
  time.  With \<open>add\<close> declared without identity and no \<open>initial\<close>, the array \<open>[1, 2, 3]\<close>
  reduces to \<open>1 + 1 + 2 + 3 = 7\<close>, where a fold that starts at the second element gives 6.
\<close>

theorem impl_1d_first_element_folded_twice:
  "reduce ''add'' (+) None oob
     (NDArray \<lparr>dtype = Integer 64, itemsize = 8, shape = [3], data = [1, 2, 3 :: int]\<rparr>)
     (AxisInt 0) None
   = Inr (Scalar 7) \<and> foldl (+) (1::int) [2, 3] = 6"
  by code_simp

section \<open>Freezing\<close>

text \<open>
  C4.  On a frozen function \<^verbatim>\<open>_compile_for_argtys\<close> raises the run-time error
  ``compilation disabled'' and leaves the state as it was; so does \<^verbatim>\<open>add\<close> for every
  signature that \<^verbatim>\<open>normalize_signature\<close> accepts, and for any signature \<^verbatim>\<open>add\<close> raises and
  registers nothing.
\<close>

theorem frozen_compile_disabled:
  "frozen self \<longrightarrow>
     compile_for_argtys backend self argtys rty =
       (Inl (RuntimeError (msg_compilation_disabled self)), self) \<and>
     (normalize_signature sig = Inr (argtys, rty) \<longrightarrow>
        add normalize_signature backend self sig =
          (Inl (RuntimeError (msg_compilation_disabled self)), self)) \<and>
     isl (fst (add normalize_signature backend self sig)) \<and>
     snd (add normalize_signature backend self sig) = self"
  by (auto simp: compile_for_argtys_def add_def split: sum.splits)

theorem frozen_compile_disabled_witness:
  "disable_compile
     \<lparr>repr_self = ''f'', nout = 1, frozen = False,
      overloads = [(\<lparr>args = [Float 64, Float 64], return_type = Float 64\<rparr>, ())],
      loops = [(1, [12, 12, 12])], keepalive = [(1, ())], libs = [()]\<rparr>
   = Inr \<lparr>repr_self = ''f'', nout = 1, frozen = True,
      overloads = [(\<lparr>args = [Float 64, Float 64], return_type = Float 64\<rparr>, ())],
      loops = [(1, [12, 12, 12])], keepalive = [(1, ())], libs = [()]\<rparr> \<and>
   add (\<lambda>s. Inr s)
       (\<lambda>a r. Inr ((), \<lparr>args = a, return_type = Integer 64\<rparr>, [7, 7, 7], 2))
     \<lparr>repr_self = ''f'', nout = 1, frozen = True,
      overloads = [(\<lparr>args = [Float 64, Float 64], return_type = Float 64\<rparr>, ())],
      loops = [(1, [12, 12, 12])], keepalive = [(1, ())], libs = [()]\<rparr>
     ([Integer 64, Integer 64], None)
   = (Inl (RuntimeError ''compilation disabled for f''),
      \<lparr>repr_self = ''f'', nout = 1, frozen = True,
       overloads = [(\<lparr>args = [Float 64, Float 64], return_type = Float 64\<rparr>, ())],
       loops = [(1, [12, 12, 12])], keepalive = [(1, ())], libs = [()]\<rparr>)"
  using frozen_compile_disabled
    [of "\<lparr>repr_self = ''f'', nout = 1, frozen = True,
      overloads = [(\<lparr>args = [Float 64, Float 64], return_type = Float 64\<rparr>, ())],
      loops = [(1, [12, 12, 12])], keepalive = [(1, ())], libs = [()]\<rparr>"
      "\<lambda>a r. Inr ((), \<lparr>args = a, return_type = Integer 64\<rparr>, [7, 7, 7], 2)"
      "[Integer 64, Integer 64]" None "\<lambda>s. Inr s" "([Integer 64, Integer 64], None)"]
  by (simp add: disable_compile_def msg_compilation_disabled_def)


text \<open>
  C5.  Not frozen, \<^verbatim>\<open>find_ewise_function\<close> returns a stored entry whose argument types
  are exactly the requested ones, finds one whenever one is stored, and does not depend
  on the promotion search.  Frozen, it returns nothing when the promotion search finds no
  loop, and otherwise a stored entry whose argument types are those of the loop found,
  whenever one is stored.  A frozen call site leaves the state as it was, and when the
  lookup succeeds the call is typed with the return type of the stored signature.
\<close>

theorem find_ewise_function_lookup:
  "(\<not> frozen self \<longrightarrow>
      (\<forall>sig cres. find_ewise_function find_loop self tys = Some (sig, cres) \<longrightarrow>
         (sig, cres) \<in> set (overloads self) \<and> args sig = tys) \<and>
      ((\<exists>sig cres. (sig, cres) \<in> set (overloads self) \<and> args sig = tys) \<longrightarrow>
         find_ewise_function find_loop self tys \<noteq> None) \<and>
      find_ewise_function find_loop self tys = find_ewise_function find_loop' self tys) \<and>
   (frozen self \<longrightarrow>
      (find_loop self tys = None \<longrightarrow> find_ewise_function find_loop self tys = None) \<and>
      (\<forall>loop. find_loop self tys = Some loop \<longrightarrow>
         (\<forall>sig cres. find_ewise_function find_loop self tys = Some (sig, cres) \<longrightarrow>
            (sig, cres) \<in> set (overloads self) \<and>
            args sig = take (length tys) (inputs loop @ outputs loop)) \<and>
         ((\<exists>sig cres. (sig, cres) \<in> set (overloads self) \<and>
                      args sig = take (length tys) (inputs loop @ outputs loop)) \<longrightarrow>
            find_ewise_function find_loop self tys \<noteq> None)) \<and>
      snd (type_me find_loop backend self argtys tys [] ndims) = self \<and>
      (\<forall>sig cres. find_ewise_function find_loop self tys = Some (sig, cres) \<and> nout self = 1 \<longrightarrow>
         fst (type_me find_loop backend self argtys tys [] ndims) =
           Inr ((if ndims > 0 then [Array (return_type sig) ndims] else [return_type sig])
                @ argtys)))"
proof (intro conjI impI allI)
  fix sig cres
  assume "\<not> frozen self" and "find_ewise_function find_loop self tys = Some (sig, cres)"
  then have "find (\<lambda>(sig, cres). args sig = tys) (overloads self) = Some (sig, cres)"
    by (simp add: find_ewise_function_def)
  from find_Some_mem[OF this]
  show "(sig, cres) \<in> set (overloads self)" and "args sig = tys" by simp_all
next
  assume nf: "\<not> frozen self"
    and ex: "\<exists>sig cres. (sig, cres) \<in> set (overloads self) \<and> args sig = tys"
  then obtain sig cres where "(sig, cres) \<in> set (overloads self)" "args sig = tys" by blast
  then have "find (\<lambda>(sig, cres). args sig = tys) (overloads self) \<noteq> None"
    by (intro find_not_None[of "(sig, cres)"]) simp_all
  with nf show "find_ewise_function find_loop self tys \<noteq> None"
    by (simp add: find_ewise_function_def)
next
  assume "\<not> frozen self"
  then show "find_ewise_function find_loop self tys = find_ewise_function find_loop' self tys"
    by (simp add: find_ewise_function_def)
next
  assume "frozen self" and "find_loop self tys = None"
  then show "find_ewise_function find_loop self tys = None"
    by (simp add: find_ewise_function_def)
next
  fix loop sig cres
  assume "frozen self" and "find_loop self tys = Some loop"
    and "find_ewise_function find_loop self tys = Some (sig, cres)"
  then have "find (\<lambda>(sig, cres). args sig = take (length tys) (inputs loop @ outputs loop))
               (overloads self) = Some (sig, cres)"
    by (simp add: find_ewise_function_def)
  from find_Some_mem[OF this]
  show "(sig, cres) \<in> set (overloads self)"
    and "args sig = take (length tys) (inputs loop @ outputs loop)" by simp_all
next
  fix loop
  assume fr: "frozen self" and fl: "find_loop self tys = Some loop"
    and ex: "\<exists>sig cres. (sig, cres) \<in> set (overloads self) \<and>
                         args sig = take (length tys) (inputs loop @ outputs loop)"
  then obtain sig cres where "(sig, cres) \<in> set (overloads self)"
    "args sig = take (length tys) (inputs loop @ outputs loop)" by blast
  then have "find (\<lambda>(sig, cres). args sig = take (length tys) (inputs loop @ outputs loop))
               (overloads self) \<noteq> None"
    by (intro find_not_None[of "(sig, cres)"]) simp_all
  with fr fl show "find_ewise_function find_loop self tys \<noteq> None"
    by (simp add: find_ewise_function_def)
next
  assume fr: "frozen self"
  have "snd (resolve_or_compile find_loop backend self tys) = self"
    by (rule resolve_or_compile_frozen[OF fr])
  then show "snd (type_me find_loop backend self argtys tys [] ndims) = self"
    by (auto simp: type_me_def split: prod.splits sum.splits)
next
  fix sig cres
  assume "frozen self"
    and "find_ewise_function find_loop self tys = Some (sig, cres) \<and> nout self = 1"
  then show "fst (type_me find_loop backend self argtys tys [] ndims) =
               Inr ((if ndims > 0 then [Array (return_type sig) ndims] else [return_type sig])
                    @ argtys)"
    by (simp add: type_me_def resolve_or_compile_def)
qed


theorem find_ewise_function_lookup_witness:
  "find_ewise_function safe_cast_search (float64_only True) [Integer 32] =
     Some (\<lparr>args = [Float 64], return_type = Float 64\<rparr>, ()) \<and>
   type_me safe_cast_search (\<lambda>a r. Inl AssertionError) (float64_only True)
       [Array (Integer 32) 1] [Integer 32] [] 1 =
     (Inr [Array (Float 64) 1, Array (Integer 32) 1], float64_only True) \<and>
   find_ewise_function safe_cast_search (float64_only False) [Integer 32] = None \<and>
   find_ewise_function safe_cast_search (float64_only False) [Float 64] =
     Some (\<lparr>args = [Float 64], return_type = Float 64\<rparr>, ())"
proof -
  let ?f64 = "\<lparr>args = [Float 64], return_type = Float 64\<rparr>"
  let ?be = "\<lambda>(a::nb_type list) (r::nb_type option). Inl AssertionError
               :: error + unit \<times> signature \<times> int list \<times> int"
  have fr: "frozen (float64_only True)" and nfr: "\<not> frozen (float64_only False)"
    and no: "nout (float64_only True) = 1"
    by (simp_all add: float64_only_def)
  have mem: "(?f64, ()) \<in> set (overloads (float64_only True))"
    "(?f64, ()) \<in> set (overloads (float64_only False))"
    by (simp_all add: float64_only_def)
  have found: "find_ewise_function safe_cast_search (float64_only True) [Integer 32] =
                 Some (?f64, ())"
    by (simp add: find_ewise_function_def safe_cast_search_def float64_only_def)
  note frozen_case =
    find_ewise_function_lookup
      [of "float64_only True" safe_cast_search "[Integer 32]" safe_cast_search
          ?be "[Array (Integer 32) 1]" 1, THEN conjunct2, THEN mp, OF fr]
  note unfrozen_case =
    find_ewise_function_lookup
      [of "float64_only False" safe_cast_search _ safe_cast_search
          ?be "[Array (Integer 32) 1]" 1, THEN conjunct1, THEN mp, OF nfr]
  have unchanged: "snd (type_me safe_cast_search ?be (float64_only True)
                          [Array (Integer 32) 1] [Integer 32] [] 1) = float64_only True"
    using frozen_case by blast
  have typed: "fst (type_me safe_cast_search ?be (float64_only True)
                      [Array (Integer 32) 1] [Integer 32] [] 1) =
                 Inr [Array (Float 64) 1, Array (Integer 32) 1]"
    using frozen_case[THEN conjunct2, THEN conjunct2, THEN conjunct2, rule_format, of ?f64 "()"]
      found no by simp
  have none: "find_ewise_function safe_cast_search (float64_only False) [Integer 32] = None"
  proof (rule ccontr)
    assume "find_ewise_function safe_cast_search (float64_only False) [Integer 32] \<noteq> None"
    then obtain sig cres where
      "find_ewise_function safe_cast_search (float64_only False) [Integer 32] = Some (sig, cres)"
      by auto
    with unfrozen_case[of "[Integer 32]"]
    have "(sig, cres) \<in> set (overloads (float64_only False))" and "args sig = [Integer 32]"
      by blast+
    then show False by (auto simp: float64_only_def)
  qed
  have "find_ewise_function safe_cast_search (float64_only False) [Float 64] \<noteq> None"
    using unfrozen_case[of "[Float 64]"] mem(2) by fastforce
  then obtain sig cres where
    s: "find_ewise_function safe_cast_search (float64_only False) [Float 64] = Some (sig, cres)"
    by auto
  with unfrozen_case[of "[Float 64]"]
  have "(sig, cres) \<in> set (overloads (float64_only False))" by blast
  then have "(sig, cres) = (?f64, ())" by (simp add: float64_only_def)
  with s have exact: "find_ewise_function safe_cast_search (float64_only False) [Float 64] =
                        Some (?f64, ())"
    by simp
  from unchanged typed
  have "type_me safe_cast_search ?be (float64_only True)
          [Array (Integer 32) 1] [Integer 32] [] 1 =
        (Inr [Array (Float 64) 1, Array (Integer 32) 1], float64_only True)"
    by (simp add: prod_eq_iff)
  with found none exact show ?thesis by simp
qed

section \<open>Axes\<close>

text \<open>
  C7.  For a well-formed array \<open>a\<close> and an integer axis \<open>k\<close> inside its rank, \<^verbatim>\<open>reduce\<close>
  returns a result whose shape is the shape of \<open>a\<close> with position \<open>k\<close> removed (for rank 1
  a scalar, of empty shape); and for every argument, \<^verbatim>\<open>reduce\<close> over the one-element tuple
  \<open>(k,)\<close> is \<^verbatim>\<open>reduce\<close> over \<open>k\<close>.
\<close>

theorem reduce_axis_removal_shape:
  "(wf_array a \<and> 0 \<le> k \<and> k < int (length (shape a)) \<longrightarrow>
      (\<exists>r. reduce name ufunc ident oob (NDArray a) (AxisInt k) initial = Inr r \<and>
           shape_of r = take (nat k) (shape a) @ drop (Suc (nat k)) (shape a))) \<and>
   reduce name ufunc ident oob x (AxisTuple [k']) initial =
     reduce name ufunc ident oob x (AxisInt k') initial"
  using reduce_axis_int_total[of a k name ufunc ident oob initial]
    reduce_one_element_tuple[of name ufunc ident oob x k' initial]
  by blast

theorem reduce_axis_removal_shape_witness:
  "(\<exists>r. reduce ''max'' max None (\<lambda>idx. 0)
          (NDArray \<lparr>dtype = Integer 64, itemsize = 8, shape = [2, 3],
                    data = [1, 5, 2, 4, 0, 6 :: int]\<rparr>) (AxisInt 1) None = Inr r \<and>
        shape_of r = [2]) \<and>
   reduce ''max'' max None (\<lambda>idx. 0)
     (NDArray \<lparr>dtype = Integer 64, itemsize = 8, shape = [2, 3],
               data = [1, 5, 2, 4, 0, 6 :: int]\<rparr>) (AxisTuple [1]) None =
   reduce ''max'' max None (\<lambda>idx. 0)
     (NDArray \<lparr>dtype = Integer 64, itemsize = 8, shape = [2, 3],
               data = [1, 5, 2, 4, 0, 6 :: int]\<rparr>) (AxisInt 1) None"
  using reduce_axis_removal_shape
    [of "\<lparr>dtype = Integer 64, itemsize = 8, shape = [2, 3], data = [1, 5, 2, 4, 0, 6 :: int]\<rparr>"
        1 "''max''" max None "\<lambda>idx. 0" None
        "NDArray \<lparr>dtype = Integer 64, itemsize = 8, shape = [2, 3],
                  data = [1, 5, 2, 4, 0, 6 :: int]\<rparr>" 1]
  by (simp add: wf_array_def)

text \<open>
  Without a seed and with no entry along the axis the result still has the shape: its
  cells hold what the unchecked reads of the first slice returned.
\<close>

lemma reduce_empty_axis_unseeded:
  "reduce ''max'' max None oob
     (NDArray \<lparr>dtype = Integer 64, itemsize = 8, shape = [0, 3], data = [] :: int list\<rparr>)
     (AxisInt 0) None
   = Inr (NDArray \<lparr>dtype = Integer 64, itemsize = 8, shape = [3],
                   data = [oob [0, 0], oob [0, 1], oob [0, 2]]\<rparr>)"
  by code_simp

text \<open>
  C2.  For a tuple of two axes \<^verbatim>\<open>impl_nd_axis_tuple\<close> reduces the smaller axis and then the
  larger one less one (\<open>reduce_axis_pair\<close>).  For three or more axes the tuple passed on
  is not the remaining axes shifted down: it keeps 0 at the position of the minimum,
  copies the other leading entries unchanged and drops the last.  With \<open>add\<close>, identity 0,
  an array of shape \<open>(2, 1, 1, 1)\<close> holding 1 and 2, and the axes \<open>(1, 2, 3)\<close>, the code
  goes on with the axes \<open>(0, 2)\<close> and returns \<open>[3]\<close> of shape \<open>(1,)\<close>; eliminating axis 1
  and going on with \<open>(1, 2)\<close> gives \<open>[1, 2]\<close> of shape \<open>(2,)\<close>.
\<close>

theorem impl_nd_axis_tuple_remaining_axes_not_shifted:
  "remaining_axes [1, 2, 3] 0 = [0, 2] \<and>
   reduce ''add'' (+) (Some 0) oob
     (NDArray \<lparr>dtype = Integer 64, itemsize = 8, shape = [2, 1, 1, 1], data = [1, 2 :: int]\<rparr>)
     (AxisTuple [1, 2, 3]) None
   = Inr (NDArray \<lparr>dtype = Integer 64, itemsize = 8, shape = [1], data = [3]\<rparr>) \<and>
   bind_err
     (reduce ''add'' (+) (Some 0) oob
        (NDArray \<lparr>dtype = Integer 64, itemsize = 8, shape = [2, 1, 1, 1], data = [1, 2 :: int]\<rparr>)
        (AxisInt 1) None)
     (\<lambda>r. reduce ''add'' (+) (Some 0) oob r (AxisTuple [1, 2]) None)
   = Inr (NDArray \<lparr>dtype = Integer 64, itemsize = 8, shape = [2], data = [1, 2]\<rparr>)"
  by code_simp


end
